theory Spec2Isabelle
  imports Complex_Main "HOL-Library.Sublist"
begin

section \<open>JavaScript values\<close>

text \<open>
  A JavaScript number is a finite value, an infinity or NaN. A finite double is kept as
  the rational it denotes, so comparisons and \<open>Number.isInteger\<close> are exact; negative
  zero is not told apart from zero.
\<close>

datatype jsnum = Fin rat | PosInf | NegInf | NaN

text \<open>
  A JavaScript string is its list of UTF-16 code units, each a number from 0 to 65535.
  \<open>str\<close> is the string of a literal. Identifiers, error messages and the names of
  \<open>typeof\<close>, which the program only builds from ASCII text, compares and concatenates,
  are kept as literals.
\<close>

type_synonym jsstring = "int list"

definition str :: "string \<Rightarrow> jsstring" where
  "str s = map of_char s"

datatype jsval = JUndefined | JNull | JBool bool | JNum jsnum | JStr jsstring | JObject

fun typeof :: "jsval \<Rightarrow> string" where
  "typeof JUndefined = ''undefined''"
| "typeof JNull = ''object''"
| "typeof (JBool _) = ''boolean''"
| "typeof (JNum _) = ''number''"
| "typeof (JStr _) = ''string''"
| "typeof JObject = ''object''"

text \<open>\<open>!v\<close> is \<open>\<not> truthy v\<close>.\<close>

fun truthy :: "jsval \<Rightarrow> bool" where
  "truthy JUndefined = False"
| "truthy JNull = False"
| "truthy (JBool b) = b"
| "truthy (JNum (Fin q)) = (q \<noteq> 0)"
| "truthy (JNum NaN) = False"
| "truthy (JNum _) = True"
| "truthy (JStr s) = (s \<noteq> [])"
| "truthy JObject = True"

text \<open>\<open>Number.isInteger\<close>: false for every value that is not a finite integral number.\<close>

fun Number_isInteger :: "jsval \<Rightarrow> bool" where
  "Number_isInteger (JNum (Fin q)) = (of_int \<lfloor>q\<rfloor> = q)"
| "Number_isInteger _ = False"

text \<open>The relational operators on numbers; a comparison with NaN is false.\<close>

fun num_lt :: "jsnum \<Rightarrow> jsnum \<Rightarrow> bool" where
  "num_lt NaN _ = False"
| "num_lt _ NaN = False"
| "num_lt (Fin a) (Fin b) = (a < b)"
| "num_lt (Fin _) PosInf = True"
| "num_lt (Fin _) NegInf = False"
| "num_lt PosInf _ = False"
| "num_lt NegInf NegInf = False"
| "num_lt NegInf _ = True"

definition num_gt :: "jsnum \<Rightarrow> jsnum \<Rightarrow> bool" where
  "num_gt a b = num_lt b a"

text \<open>
  \<open>a < b\<close> and \<open>a > b\<close> on values. Only numbers reach a comparison in this program (each
  is guarded by a \<open>typeof\<close> test), so the coercions of other operands are not modelled.
\<close>

fun js_lt :: "jsval \<Rightarrow> jsval \<Rightarrow> bool" where
  "js_lt (JNum a) (JNum b) = num_lt a b"
| "js_lt _ _ = False"

fun js_gt :: "jsval \<Rightarrow> jsval \<Rightarrow> bool" where
  "js_gt (JNum a) (JNum b) = num_gt a b"
| "js_gt _ _ = False"

definition int_num :: "int \<Rightarrow> jsval" where
  "int_num i = JNum (Fin (of_int i))"

section \<open>Strings\<close>

text \<open>
  The white space that \<open>trim\<close> removes: TAB, LF, VT, FF, CR, SPACE, NBSP, the other
  space separators (U+1680, U+2000 to U+200A, U+202F, U+205F, U+3000), the line and
  paragraph separators (U+2028, U+2029) and the byte order mark (U+FEFF).
\<close>

definition isWhiteSpace :: "int \<Rightarrow> bool" where
  "isWhiteSpace c =
     (c \<in> {0x9, 0xA, 0xB, 0xC, 0xD, 0x20, 0xA0, 0x1680, 0x2028, 0x2029, 0x202F, 0x205F,
            0x3000, 0xFEFF}
      \<or> (0x2000 \<le> c \<and> c \<le> 0x200A))"

definition trimStart :: "jsstring \<Rightarrow> jsstring" where
  "trimStart s = dropWhile isWhiteSpace s"

definition trimEnd :: "jsstring \<Rightarrow> jsstring" where
  "trimEnd s = rev (dropWhile isWhiteSpace (rev s))"

definition trim :: "jsstring \<Rightarrow> jsstring" where
  "trim s = trimEnd (trimStart s)"

text \<open>
  \<open>toLowerCase\<close> follows the default case conversion of Unicode. Its tables are
  written out here for Basic Latin, Latin-1, the combining marks and the Greek block,
  and for U+0130; a code unit of another cased script is left as it is, which is not
  what the runtime does, so strings of such scripts are outside this model.

  The lower-case form of one code unit: A to Z, the accented capitals of Latin-1 (C0 to
  DE but D7, the multiplication sign) and the Greek capitals from Alpha to Upsilon with
  dialytika (U+0391 to U+03AB) move up by 32; the Greek capitals with tonos have their
  own places.
\<close>

definition lowerUnit :: "int \<Rightarrow> int" where
  "lowerUnit c =
     (if (0x41 \<le> c \<and> c \<le> 0x5A) \<or> (0xC0 \<le> c \<and> c \<le> 0xDE \<and> c \<noteq> 0xD7)
         \<or> (0x391 \<le> c \<and> c \<le> 0x3AB \<and> c \<noteq> 0x3A2)
      then c + 32
      else if c = 0x386 then 0x3AC
      else if 0x388 \<le> c \<and> c \<le> 0x38A then c + 37
      else if c = 0x38C then 0x3CC
      else if c = 0x38E \<or> c = 0x38F then c + 63
      else c)"

text \<open>The letters that have a case, and the marks that a word's casing looks through.\<close>

definition cased :: "int \<Rightarrow> bool" where
  "cased c =
     ((0x41 \<le> c \<and> c \<le> 0x5A) \<or> (0x61 \<le> c \<and> c \<le> 0x7A)
      \<or> c = 0xAA \<or> c = 0xB5 \<or> c = 0xBA
      \<or> (0xC0 \<le> c \<and> c \<le> 0xFF \<and> c \<noteq> 0xD7 \<and> c \<noteq> 0xF7)
      \<or> c = 0x130 \<or> c = 0x131
      \<or> (0x370 \<le> c \<and> c \<le> 0x373) \<or> c = 0x376 \<or> c = 0x377
      \<or> (0x37A \<le> c \<and> c \<le> 0x37D) \<or> c = 0x37F \<or> c = 0x386
      \<or> (0x388 \<le> c \<and> c \<le> 0x38A) \<or> c = 0x38C
      \<or> (0x38E \<le> c \<and> c \<le> 0x3A1) \<or> (0x3A3 \<le> c \<and> c \<le> 0x3F5)
      \<or> (0x3F7 \<le> c \<and> c \<le> 0x3FF))"

definition caseIgnorable :: "int \<Rightarrow> bool" where
  "caseIgnorable c =
     (c \<in> {0x27, 0x2E, 0x3A, 0x5E, 0x60, 0xA8, 0xAD, 0xAF, 0xB4, 0xB7, 0xB8,
            0x374, 0x375, 0x37A, 0x384, 0x385, 0x387}
      \<or> (0x300 \<le> c \<and> c \<le> 0x36F))"

text \<open>A cased letter comes next, after any number of marks that casing looks through.\<close>

fun cased_next :: "jsstring \<Rightarrow> bool" where
  "cased_next [] = False"
| "cased_next (c # cs) = (cased c \<or> (caseIgnorable c \<and> cased_next cs))"

text \<open>
  The conversion goes through the string with the code units already passed, last one
  first. Two code units do not go by the table alone: a capital sigma (U+03A3) that
  ends a word, with a cased letter before it and none after it, becomes the final
  sigma (U+03C2) and not the sigma (U+03C3); the capital I with dot above (U+0130)
  becomes an i and a combining dot (U+0069, U+0307).
\<close>

fun lowerFrom :: "jsstring \<Rightarrow> jsstring \<Rightarrow> jsstring" where
  "lowerFrom seen [] = []"
| "lowerFrom seen (c # cs) =
     (if c = 0x3A3 then [if cased_next seen \<and> \<not> cased_next cs then 0x3C2 else 0x3C3]
      else if c = 0x130 then [0x69, 0x307]
      else [lowerUnit c])
     @ lowerFrom (c # seen) cs"

definition toLowerCase :: "jsstring \<Rightarrow> jsstring" where
  "toLowerCase s = lowerFrom [] s"

text \<open>\<open>hay.includes(needle)\<close>: the needle starts at some position of the hay.\<close>

fun js_includes :: "jsstring \<Rightarrow> jsstring \<Rightarrow> bool" where
  "js_includes [] needle = (needle = [])"
| "js_includes (c # cs) needle = (prefix needle (c # cs) \<or> js_includes cs needle)"

text \<open>\<open>s.substr(start, len)\<close> for non-negative arguments.\<close>

definition substr :: "nat \<Rightarrow> nat \<Rightarrow> string \<Rightarrow> string" where
  "substr start len s = take len (drop start s)"

text \<open>The decimal numeral of an integer, as a template literal prints it.\<close>

fun show_nat :: "nat \<Rightarrow> string" where
  "show_nat n =
     (if n < 10 then [''0123456789'' ! n]
      else show_nat (n div 10) @ [''0123456789'' ! (n mod 10)])"

declare show_nat.simps [simp del]

definition show_int :: "int \<Rightarrow> string" where
  "show_int i = (if i < 0 then CHR ''-'' # show_nat (nat (- i)) else show_nat (nat i))"

section \<open>types.ts\<close>

record Book =
  book_id :: string
  title :: jsstring
  author :: jsstring
  year :: jsval

text \<open>The fields of a creation request are read as they arrive: any value can stand there.\<close>

record CreateBookData =
  c_title :: jsval
  c_author :: jsval
  c_year :: jsval

text \<open>
  An update request: \<open>None\<close> is a key the object does not have, \<open>Some JUndefined\<close> a key
  holding \<open>undefined\<close>. Reading either gives \<open>undefined\<close>; only \<open>Object.keys\<close> tells
  them apart.
\<close>

record UpdateBookData =
  u_title :: "jsval option"
  u_author :: "jsval option"
  u_year :: "jsval option"

definition field :: "jsval option \<Rightarrow> jsval" where
  "field p = (case p of None \<Rightarrow> JUndefined | Some v \<Rightarrow> v)"

definition Object_keys_length :: "UpdateBookData \<Rightarrow> nat" where
  "Object_keys_length d =
     (if u_title d = None then 0 else 1) + (if u_author d = None then 0 else 1)
       + (if u_year d = None then 0 else 1)"

text \<open>
  The errors. \<open>TypeError\<close> is what the runtime raises when \<open>trim\<close> is called on a value
  that has no such method.
\<close>

datatype error = BookNotFoundError string | ValidationError string | TypeError string

fun message :: "error \<Rightarrow> string" where
  "message (BookNotFoundError i) = ''Book with id '' @ [CHR 0x27] @ i @ [CHR 0x27] @ '' not found''"
| "message (ValidationError m) = ''Validation error: '' @ m"
| "message (TypeError m) = m"

fun name :: "error \<Rightarrow> string" where
  "name (BookNotFoundError _) = ''BookNotFoundError''"
| "name (ValidationError _) = ''ValidationError''"
| "name (TypeError _) = ''TypeError''"

datatype Result = Success Book | Failure error

section \<open>utils.ts\<close>

text \<open>
  What the program reads from its surroundings at one call: the calendar year of
  \<open>new Date().getFullYear()\<close>, the milliseconds of \<open>Date.now()\<close> and the text of
  \<open>Math.random().toString(36)\<close>.
\<close>

record env =
  fullYear :: int
  now_ms :: int
  random36 :: string

definition generateId :: "env \<Rightarrow> string" where
  "generateId e = ''book_'' @ show_int (now_ms e) @ ''_'' @ substr 2 9 (random36 e)"

text \<open>\<open>v.trim().length === 0\<close>, reached only when \<open>v\<close> is a string.\<close>

fun trim_length_0 :: "jsval \<Rightarrow> bool" where
  "trim_length_0 (JStr s) = (length (trim s) = 0)"
| "trim_length_0 _ = False"

definition validateCreateBookData :: "env \<Rightarrow> CreateBookData \<Rightarrow> error + unit" where
  "validateCreateBookData e d =
     (if \<not> truthy (c_title d) \<or> typeof (c_title d) \<noteq> ''string'' \<or> trim_length_0 (c_title d)
      then Inl (ValidationError ''Title is required and must be a non-empty string'')
      else if \<not> truthy (c_author d) \<or> typeof (c_author d) \<noteq> ''string''
              \<or> trim_length_0 (c_author d)
      then Inl (ValidationError ''Author is required and must be a non-empty string'')
      else if typeof (c_year d) \<noteq> ''number'' \<or> \<not> Number_isInteger (c_year d)
      then Inl (ValidationError ''Year must be a valid integer'')
      else if js_lt (c_year d) (int_num 0) \<or> js_gt (c_year d) (int_num (fullYear e))
      then Inl (ValidationError (''Year must be between 0 and '' @ show_int (fullYear e)))
      else Inr ())"

definition validateUpdateBookData :: "env \<Rightarrow> UpdateBookData \<Rightarrow> error + unit" where
  "validateUpdateBookData e d =
     (if Object_keys_length d = 0
      then Inl (ValidationError ''At least one field must be provided for update'')
      else if field (u_title d) \<noteq> JUndefined
              \<and> (typeof (field (u_title d)) \<noteq> ''string'' \<or> trim_length_0 (field (u_title d)))
      then Inl (ValidationError ''Title must be a non-empty string'')
      else if field (u_author d) \<noteq> JUndefined
              \<and> (typeof (field (u_author d)) \<noteq> ''string'' \<or> trim_length_0 (field (u_author d)))
      then Inl (ValidationError ''Author must be a non-empty string'')
      else if field (u_year d) \<noteq> JUndefined
              \<and> (typeof (field (u_year d)) \<noteq> ''number'' \<or> \<not> Number_isInteger (field (u_year d)))
      then Inl (ValidationError ''Year must be a valid integer'')
      else if field (u_year d) \<noteq> JUndefined
              \<and> (js_lt (field (u_year d)) (int_num 0)
                   \<or> js_gt (field (u_year d)) (int_num (fullYear e)))
      then Inl (ValidationError (''Year must be between 0 and '' @ show_int (fullYear e)))
      else Inr ())"

definition sanitizeString :: "jsstring \<Rightarrow> jsstring" where
  "sanitizeString input = trim input"

text \<open>Calling \<open>sanitizeString\<close> on a value: a string is trimmed, anything else has no \<open>trim\<close>.\<close>

fun sanitize :: "jsval \<Rightarrow> error + jsstring" where
  "sanitize (JStr s) = Inr (sanitizeString s)"
| "sanitize _ = Inl (TypeError ''input.trim is not a function'')"

section \<open>The \<open>Map\<close> of the store\<close>

text \<open>
  A JavaScript \<open>Map\<close> keeps its entries in insertion order: \<open>set\<close> on a key it holds
  replaces the value where it stands, \<open>set\<close> on a new key appends, \<open>delete\<close> removes
  the entry and tells whether there was one.
\<close>

type_synonym store = "(string \<times> Book) list"

definition Map_get :: "string \<Rightarrow> store \<Rightarrow> Book option" where
  "Map_get k s = map_of s k"

definition Map_has :: "string \<Rightarrow> store \<Rightarrow> bool" where
  "Map_has k s = (map_of s k \<noteq> None)"

fun Map_set :: "string \<Rightarrow> Book \<Rightarrow> store \<Rightarrow> store" where
  "Map_set k v [] = [(k, v)]"
| "Map_set k v (p # ps) = (if fst p = k then (k, v) # ps else p # Map_set k v ps)"

definition Map_delete :: "string \<Rightarrow> store \<Rightarrow> bool \<times> store" where
  "Map_delete k s = (Map_has k s, filter (\<lambda>p. fst p \<noteq> k) s)"

definition Map_values :: "store \<Rightarrow> Book list" where
  "Map_values s = map snd s"

definition Map_size :: "store \<Rightarrow> nat" where
  "Map_size s = length s"

text \<open>The keys of a \<open>Map\<close> are distinct; every operation keeps them so.\<close>

definition distinct_keys :: "store \<Rightarrow> bool" where
  "distinct_keys s = distinct (map fst s)"

section \<open>BookService\<close>

text \<open>
  Every method takes the store and returns it with its result. A method that throws
  returns \<open>Inl\<close> of the error: each throw of this class happens before the first
  write, so the store of the caller is then the one it passed.
\<close>

definition create :: "env \<Rightarrow> CreateBookData \<Rightarrow> store \<Rightarrow> error + Book \<times> store" where
  "create e d s =
     (case validateCreateBookData e d of
        Inl err \<Rightarrow> Inl err
      | Inr _ \<Rightarrow>
          (case sanitize (c_title d) of
             Inl err \<Rightarrow> Inl err
           | Inr t \<Rightarrow>
               (case sanitize (c_author d) of
                  Inl err \<Rightarrow> Inl err
                | Inr a \<Rightarrow>
                    (let book = \<lparr>book_id = generateId e, title = t, author = a,
                                 year = c_year d\<rparr>
                     in Inr (book, Map_set (book_id book) book s)))))"

definition safeCreate :: "env \<Rightarrow> CreateBookData \<Rightarrow> store \<Rightarrow> Result \<times> store" where
  "safeCreate e d s =
     (case create e d s of
        Inr (book, s') \<Rightarrow> (Success book, s')
      | Inl err \<Rightarrow> (Failure err, s))"

definition findById :: "string \<Rightarrow> store \<Rightarrow> Book option" where
  "findById k s = Map_get k s"

definition findAll :: "store \<Rightarrow> Book list" where
  "findAll s = Map_values s"

definition findByAuthor :: "jsstring \<Rightarrow> store \<Rightarrow> Book list" where
  "findByAuthor a s =
     (let normalizedAuthor = trim (toLowerCase a)
      in filter (\<lambda>book. js_includes (toLowerCase (author book)) normalizedAuthor) (findAll s))"

definition findByTitle :: "jsstring \<Rightarrow> store \<Rightarrow> Book list" where
  "findByTitle t s =
     (let normalizedTitle = trim (toLowerCase t)
      in filter (\<lambda>book. js_includes (toLowerCase (title book)) normalizedTitle) (findAll s))"

definition update :: "env \<Rightarrow> string \<Rightarrow> UpdateBookData \<Rightarrow> store \<Rightarrow> error + Book option \<times> store" where
  "update e k d s =
     (case validateUpdateBookData e d of
        Inl err \<Rightarrow> Inl err
      | Inr _ \<Rightarrow>
          (case Map_get k s of
             None \<Rightarrow> Inr (None, s)
           | Some existingBook \<Rightarrow>
               (case (if truthy (field (u_title d)) then sanitize (field (u_title d))
                      else Inr (title existingBook)) of
                  Inl err \<Rightarrow> Inl err
                | Inr t \<Rightarrow>
                    (case (if truthy (field (u_author d)) then sanitize (field (u_author d))
                           else Inr (author existingBook)) of
                       Inl err \<Rightarrow> Inl err
                     | Inr a \<Rightarrow>
                         (let updatedBook = existingBook
                                \<lparr>title := t, author := a,
                                 year := (if field (u_year d) \<noteq> JUndefined then field (u_year d)
                                          else year existingBook)\<rparr>
                          in Inr (Some updatedBook, Map_set k updatedBook s))))))"

definition safeUpdate :: "env \<Rightarrow> string \<Rightarrow> UpdateBookData \<Rightarrow> store \<Rightarrow> Result \<times> store" where
  "safeUpdate e k d s =
     (case update e k d s of
        Inr (None, s') \<Rightarrow> (Failure (BookNotFoundError k), s')
      | Inr (Some book, s') \<Rightarrow> (Success book, s')
      | Inl err \<Rightarrow> (Failure err, s))"

definition delete :: "string \<Rightarrow> store \<Rightarrow> bool \<times> store" where
  "delete k s = Map_delete k s"

definition safeDelete :: "string \<Rightarrow> store \<Rightarrow> error + store" where
  "safeDelete k s =
     (case delete k s of
        (False, _) \<Rightarrow> Inl (BookNotFoundError k)
      | (True, s') \<Rightarrow> Inr s')"

definition count :: "store \<Rightarrow> nat" where
  "count s = Map_size s"

definition clear :: "store \<Rightarrow> store" where
  "clear s = []"

definition isEmpty :: "store \<Rightarrow> bool" where
  "isEmpty s = (Map_size s = 0)"

subsection \<open>The arithmetic of \<open>getPaginated\<close>\<close>

text \<open>
  The operators \<open>/\<close>, \<open>-\<close>, \<open>*\<close>, \<open>+\<close> and \<open>Math.ceil\<close>, \<open>Math.min\<close>, \<open>Math.max\<close> on
  numbers, exact on the finite values; a zero divisor is the positive zero.
\<close>

fun num_div :: "jsnum \<Rightarrow> jsnum \<Rightarrow> jsnum" where
  "num_div NaN _ = NaN"
| "num_div _ NaN = NaN"
| "num_div (Fin a) (Fin b) =
     (if b \<noteq> 0 then Fin (a / b) else if a = 0 then NaN else if 0 < a then PosInf else NegInf)"
| "num_div (Fin _) _ = Fin 0"
| "num_div PosInf (Fin b) = (if 0 \<le> b then PosInf else NegInf)"
| "num_div NegInf (Fin b) = (if 0 \<le> b then NegInf else PosInf)"
| "num_div _ _ = NaN"

fun num_sub :: "jsnum \<Rightarrow> jsnum \<Rightarrow> jsnum" where
  "num_sub NaN _ = NaN"
| "num_sub _ NaN = NaN"
| "num_sub (Fin a) (Fin b) = Fin (a - b)"
| "num_sub (Fin _) PosInf = NegInf"
| "num_sub (Fin _) NegInf = PosInf"
| "num_sub PosInf PosInf = NaN"
| "num_sub PosInf _ = PosInf"
| "num_sub NegInf NegInf = NaN"
| "num_sub NegInf _ = NegInf"

fun num_add :: "jsnum \<Rightarrow> jsnum \<Rightarrow> jsnum" where
  "num_add NaN _ = NaN"
| "num_add _ NaN = NaN"
| "num_add (Fin a) (Fin b) = Fin (a + b)"
| "num_add (Fin _) b = b"
| "num_add PosInf NegInf = NaN"
| "num_add PosInf _ = PosInf"
| "num_add NegInf PosInf = NaN"
| "num_add NegInf _ = NegInf"

fun num_mul :: "jsnum \<Rightarrow> jsnum \<Rightarrow> jsnum" where
  "num_mul NaN _ = NaN"
| "num_mul _ NaN = NaN"
| "num_mul (Fin a) (Fin b) = Fin (a * b)"
| "num_mul (Fin a) PosInf = (if a = 0 then NaN else if 0 < a then PosInf else NegInf)"
| "num_mul (Fin a) NegInf = (if a = 0 then NaN else if 0 < a then NegInf else PosInf)"
| "num_mul PosInf (Fin b) = (if b = 0 then NaN else if 0 < b then PosInf else NegInf)"
| "num_mul NegInf (Fin b) = (if b = 0 then NaN else if 0 < b then NegInf else PosInf)"
| "num_mul PosInf PosInf = PosInf"
| "num_mul PosInf NegInf = NegInf"
| "num_mul NegInf PosInf = NegInf"
| "num_mul NegInf NegInf = PosInf"

fun Math_ceil :: "jsnum \<Rightarrow> jsnum" where
  "Math_ceil (Fin q) = Fin (of_int \<lceil>q\<rceil>)"
| "Math_ceil x = x"

fun Math_min :: "jsnum \<Rightarrow> jsnum \<Rightarrow> jsnum" where
  "Math_min NaN _ = NaN"
| "Math_min _ NaN = NaN"
| "Math_min NegInf _ = NegInf"
| "Math_min _ NegInf = NegInf"
| "Math_min PosInf b = b"
| "Math_min a PosInf = a"
| "Math_min (Fin a) (Fin b) = Fin (min a b)"

fun Math_max :: "jsnum \<Rightarrow> jsnum \<Rightarrow> jsnum" where
  "Math_max NaN _ = NaN"
| "Math_max _ NaN = NaN"
| "Math_max PosInf _ = PosInf"
| "Math_max _ PosInf = PosInf"
| "Math_max NegInf b = b"
| "Math_max a NegInf = a"
| "Math_max (Fin a) (Fin b) = Fin (max a b)"

text \<open>
  \<open>Array.prototype.slice\<close>: each bound is cut to an integer (NaN is 0), a negative
  bound counts from the end, and both are clamped into the array.
\<close>

fun relative_index :: "nat \<Rightarrow> jsnum \<Rightarrow> nat" where
  "relative_index len NaN = 0"
| "relative_index len PosInf = len"
| "relative_index len NegInf = 0"
| "relative_index len (Fin q) =
     (let i = (if q < 0 then \<lceil>q\<rceil> else \<lfloor>q\<rfloor>)
      in if i < 0 then nat (max (int len + i) 0) else min (nat i) len)"

definition slice :: "jsnum \<Rightarrow> jsnum \<Rightarrow> 'a list \<Rightarrow> 'a list" where
  "slice start finish xs =
     (let k = relative_index (length xs) start;
          final = relative_index (length xs) finish
      in take (final - k) (drop k xs))"

record PaginatedResult =
  books :: "Book list"
  totalBooks :: jsnum
  totalPages :: jsnum
  currentPage :: jsnum
  hasNextPage :: bool
  hasPreviousPage :: bool

text \<open>
  \<open>getPaginated\<close> with both arguments given (left out, they are 1 and 10). The page
  size is used as it comes: nothing checks that it is positive or an integer.
\<close>

definition getPaginated :: "jsnum \<Rightarrow> jsnum \<Rightarrow> store \<Rightarrow> PaginatedResult" where
  "getPaginated page pageSize s =
     (let total_books = Fin (of_nat (count s));
          total_pages = Math_ceil (num_div total_books pageSize);
          current_page = Math_max (Fin 1) (Math_min page total_pages);
          startIndex = num_mul (num_sub current_page (Fin 1)) pageSize;
          endIndex = num_add startIndex pageSize;
          allBooks = findAll s
      in \<lparr>books = slice startIndex endIndex allBooks,
          totalBooks = total_books,
          totalPages = total_pages,
          currentPage = current_page,
          hasNextPage = num_lt current_page total_pages,
          hasPreviousPage = num_gt current_page (Fin 1)\<rparr>)"

section \<open>Sequences of calls\<close>

text \<open>
  A caller's sequence of calls on one service, each with what the surroundings were at
  that call. A call that throws leaves the store as it was.
\<close>

datatype op =
    Create CreateBookData
  | SafeCreate CreateBookData
  | Update string UpdateBookData
  | SafeUpdate string UpdateBookData
  | Delete string
  | SafeDelete string
  | Clear

fun step :: "env \<Rightarrow> op \<Rightarrow> store \<Rightarrow> store" where
  "step e (Create d) s = (case create e d s of Inl _ \<Rightarrow> s | Inr (_, s') \<Rightarrow> s')"
| "step e (SafeCreate d) s = snd (safeCreate e d s)"
| "step e (Update k d) s = (case update e k d s of Inl _ \<Rightarrow> s | Inr (_, s') \<Rightarrow> s')"
| "step e (SafeUpdate k d) s = snd (safeUpdate e k d s)"
| "step e (Delete k) s = snd (delete k s)"
| "step e (SafeDelete k) s = (case safeDelete k s of Inl _ \<Rightarrow> s | Inr s' \<Rightarrow> s')"
| "step e Clear s = clear s"

fun run :: "(env \<times> op) list \<Rightarrow> store \<Rightarrow> store" where
  "run [] s = s"
| "run ((e, c) # cs) s = run cs (step e c s)"




section \<open>Properties as the specification words them\<close>

text \<open>
  Two strings are equal but for case when their lower-case forms are equal; a string
  contains another but for case when one of its substrings equals it but for case.
\<close>

definition equal_ignoring_case :: "jsstring \<Rightarrow> jsstring \<Rightarrow> bool" where
  "equal_ignoring_case a b = (toLowerCase a = toLowerCase b)"

definition contains_ignoring_case :: "jsstring \<Rightarrow> jsstring \<Rightarrow> bool" where
  "contains_ignoring_case hay needle =
     (\<exists>before mid after. hay = before @ mid @ after \<and> equal_ignoring_case mid needle)"

text \<open>A string is blank when trimming leaves nothing of it.\<close>

definition non_blank :: "jsstring \<Rightarrow> bool" where
  "non_blank s = (trim s \<noteq> [])"

text \<open>A year in range: an integer from 0 to the calendar year.\<close>

definition year_in_range :: "int \<Rightarrow> jsval \<Rightarrow> bool" where
  "year_in_range cy v = (\<exists>y. v = int_num y \<and> 0 \<le> y \<and> y \<le> cy)"

text \<open>\<open>page\<close> clamped into the pages from 1 to \<open>tp\<close>, and to 1 when there is no page.\<close>

definition clamp_page :: "int \<Rightarrow> int \<Rightarrow> int" where
  "clamp_page tp page = (if tp = 0 then 1 else if page < 1 then 1 else if tp < page then tp else page)"

text \<open>The elements of a list at the indices from \<open>a\<close> up to, not including, \<open>b\<close>.\<close>

definition at_indices :: "nat \<Rightarrow> nat \<Rightarrow> 'a list \<Rightarrow> 'a list" where
  "at_indices a b xs = map (nth xs) [a ..< min b (length xs)]"

section \<open>Example values\<close>

definition env_at :: "int \<Rightarrow> int \<Rightarrow> env" where
  "env_at y ms = \<lparr>fullYear = y, now_ms = ms, random36 = ''0.4fzyo82mvyt''\<rparr>"

definition new_book :: "string \<Rightarrow> string \<Rightarrow> int \<Rightarrow> CreateBookData" where
  "new_book t a y = \<lparr>c_title = JStr (str t), c_author = JStr (str a), c_year = int_num y\<rparr>"

definition no_fields :: UpdateBookData where
  "no_fields = \<lparr>u_title = None, u_author = None, u_year = None\<rparr>"

definition only_title :: "string \<Rightarrow> UpdateBookData" where
  "only_title t = \<lparr>u_title = Some (JStr (str t)), u_author = None, u_year = None\<rparr>"

definition only_year :: "int \<Rightarrow> UpdateBookData" where
  "only_year y = \<lparr>u_title = None, u_author = None, u_year = Some (int_num y)\<rparr>"

definition title_and_year :: "string \<Rightarrow> int \<Rightarrow> UpdateBookData" where
  "title_and_year t y =
     \<lparr>u_title = Some (JStr (str t)), u_author = None, u_year = Some (int_num y)\<rparr>"

definition dune :: Book where
  "dune = \<lparr>book_id = ''book_1_4fzyo82mv'', title = str ''Dune'',
            author = str ''Frank Herbert'',
            year = int_num 1965\<rparr>"

definition one_book :: store where
  "one_book = [(''book_1_4fzyo82mv'', dune)]"

definition five_calls :: "(env \<times> op) list" where
  "five_calls =
     [(env_at 2024 1, Create (new_book ''Book 1'' ''Author 1'' 2020)),
      (env_at 2024 2, Create (new_book ''Book 2'' ''Author 2'' 2021)),
      (env_at 2024 3, Create (new_book ''Book 3'' ''Author 3'' 2022)),
      (env_at 2024 4, Create (new_book ''Book 4'' ''Author 4'' 2023)),
      (env_at 2024 5, Create (new_book ''Book 5'' ''Author 5'' 2024))]"

definition five_books :: store where
  "five_books = run five_calls []"

definition env_with :: "int \<Rightarrow> int \<Rightarrow> string \<Rightarrow> env" where
  "env_with y ms r = \<lparr>fullYear = y, now_ms = ms, random36 = r\<rparr>"

definition emma :: Book where
  "emma = \<lparr>book_id = ''book_1_4fzyo82mv'', title = str ''Emma'',
            author = str ''Jane Austen'',
            year = int_num 1815\<rparr>"

text \<open>The record \<open>update\<close> writes: the previous one with the supplied fields merged in.\<close>

definition merged :: "Book \<Rightarrow> UpdateBookData \<Rightarrow> Book" where
  "merged old d = old
     \<lparr>title := (case field (u_title d) of JStr t \<Rightarrow> trim t | _ \<Rightarrow> title old),
      author := (case field (u_author d) of JStr a \<Rightarrow> trim a | _ \<Rightarrow> author old),
      year := (if field (u_year d) \<noteq> JUndefined then field (u_year d) else year old)\<rparr>"





text \<open>A string of Latin-1: every code unit is below 256.\<close>

definition latin1 :: "jsstring \<Rightarrow> bool" where
  "latin1 s = (\<forall>c \<in> set s. 0 \<le> c \<and> c < 256)"

text \<open>
  The Greek words \<open>PHILOS\<close> and \<open>PHILOSOPHIA\<close> in capitals (Phi, Iota, Lambda,
  Omicron, Sigma; then Omicron, Phi, Iota, Alpha), and a store that holds one book with
  the second as its title.
\<close>

definition philos :: jsstring where
  "philos = [0x3A6, 0x399, 0x39B, 0x39F, 0x3A3]"

definition philosophia :: jsstring where
  "philosophia = [0x3A6, 0x399, 0x39B, 0x39F, 0x3A3, 0x39F, 0x3A6, 0x399, 0x391]"

definition greek_request :: CreateBookData where
  "greek_request = \<lparr>c_title = JStr philosophia, c_author = JStr (str ''Platon''),
                     c_year = int_num 1950\<rparr>"

definition greek_book :: Book where
  "greek_book = \<lparr>book_id = ''book_3_4fzyo82mv'', title = philosophia, author = str ''Platon'',
                  year = int_num 1950\<rparr>"

definition greek_shelf :: store where
  "greek_shelf = [(''book_3_4fzyo82mv'', greek_book)]"



section \<open>The \<open>Map\<close> operations\<close>

lemma map_of_Map_set: "map_of (Map_set k v s) = (map_of s)(k \<mapsto> v)"
  by (induction s) (auto simp: fun_eq_iff)

lemma Map_get_Map_set: "Map_get k' (Map_set k v s) = (if k' = k then Some v else Map_get k' s)"
  by (simp add: Map_get_def map_of_Map_set)

lemma typeof_string: "(typeof v = ''string'') = (\<exists>s. v = JStr s)"
  by (cases v) auto

lemma typeof_number: "(typeof v = ''number'') = (\<exists>n. v = JNum n)"
  by (cases v) auto

lemma Number_isInteger_iff: "Number_isInteger v = (\<exists>y. v = int_num y)"
proof (cases v)
  case (JNum n)
  show ?thesis
  proof (cases n)
    case (Fin q)
    have "(of_int \<lfloor>q\<rfloor> = q) = (\<exists>y. q = of_int y)"
      by (metis floor_of_int)
    with JNum Fin show ?thesis by (simp add: int_num_def)
  qed (simp_all add: JNum int_num_def)
qed (simp_all add: int_num_def)

lemma year_checks:
  "(typeof v \<noteq> ''number'' \<or> \<not> Number_isInteger v \<or> js_lt v (int_num 0) \<or> js_gt v (int_num cy))
     = (\<not> year_in_range cy v)"
  by (auto simp: year_in_range_def Number_isInteger_iff int_num_def num_gt_def)

lemma blank_checks:
  "(\<not> truthy v \<or> typeof v \<noteq> ''string'' \<or> trim_length_0 v) = (\<not> (\<exists>t. v = JStr t \<and> trim t \<noteq> []))"
  by (cases v) (auto simp: trim_def trimEnd_def trimStart_def)

lemma blank_checks_update:
  "(v \<noteq> JUndefined \<and> (typeof v \<noteq> ''string'' \<or> trim_length_0 v))
     = (\<not> (v = JUndefined \<or> (\<exists>t. v = JStr t \<and> trim t \<noteq> [])))"
  by (cases v) auto

lemma validateCreate_ok:
  "(validateCreateBookData e d = Inr ()) =
     ((\<exists>t. c_title d = JStr t \<and> trim t \<noteq> []) \<and> (\<exists>a. c_author d = JStr a \<and> trim a \<noteq> [])
        \<and> year_in_range (fullYear e) (c_year d))"
proof -
  have "(validateCreateBookData e d = Inr ()) =
      (\<not> (\<not> truthy (c_title d) \<or> typeof (c_title d) \<noteq> ''string'' \<or> trim_length_0 (c_title d))
       \<and> \<not> (\<not> truthy (c_author d) \<or> typeof (c_author d) \<noteq> ''string'' \<or> trim_length_0 (c_author d))
       \<and> \<not> (typeof (c_year d) \<noteq> ''number'' \<or> \<not> Number_isInteger (c_year d)
            \<or> js_lt (c_year d) (int_num 0) \<or> js_gt (c_year d) (int_num (fullYear e))))"
    unfolding validateCreateBookData_def by (simp only: if_split_eq1) auto
  then show ?thesis
    by (simp only: blank_checks year_checks) blast
qed

lemma validateUpdate_ok:
  "(validateUpdateBookData e d = Inr ()) =
     (Object_keys_length d \<noteq> 0
      \<and> (field (u_title d) = JUndefined \<or> (\<exists>t. field (u_title d) = JStr t \<and> trim t \<noteq> []))
      \<and> (field (u_author d) = JUndefined \<or> (\<exists>a. field (u_author d) = JStr a \<and> trim a \<noteq> []))
      \<and> (field (u_year d) = JUndefined \<or> year_in_range (fullYear e) (field (u_year d))))"
proof -
  have "(validateUpdateBookData e d = Inr ()) =
      (Object_keys_length d \<noteq> 0
       \<and> \<not> (field (u_title d) \<noteq> JUndefined
              \<and> (typeof (field (u_title d)) \<noteq> ''string'' \<or> trim_length_0 (field (u_title d))))
       \<and> \<not> (field (u_author d) \<noteq> JUndefined
              \<and> (typeof (field (u_author d)) \<noteq> ''string'' \<or> trim_length_0 (field (u_author d))))
       \<and> (field (u_year d) = JUndefined \<or>
          \<not> (typeof (field (u_year d)) \<noteq> ''number'' \<or> \<not> Number_isInteger (field (u_year d))
            \<or> js_lt (field (u_year d)) (int_num 0)
            \<or> js_gt (field (u_year d)) (int_num (fullYear e)))))"
    unfolding validateUpdateBookData_def by (simp only: if_split_eq1) auto
  then show ?thesis
    by (simp only: blank_checks_update year_checks) blast
qed

lemma validate_errors:
  "validateUpdateBookData e d = Inl err \<Longrightarrow> \<exists>m. err = ValidationError m"
  "validateCreateBookData e c = Inl err \<Longrightarrow> \<exists>m. err = ValidationError m"
  by (auto simp: validateUpdateBookData_def validateCreateBookData_def split: if_splits)

lemma trim_Nil [simp]: "trim [] = []"
  by (simp add: trim_def trimEnd_def trimStart_def)

section \<open>Validation comes before the lookup\<close>

text \<open>
  C2. An update request that fails validation raises a \<open>ValidationError\<close> whatever the
  identifier and the store are, also for an identifier the store does not hold: the
  call does not return the not-found result \<open>Inr (None, s)\<close>.
\<close>

theorem update_validation_first:
  assumes "validateUpdateBookData e d \<noteq> Inr ()"
  shows "\<exists>m. validateUpdateBookData e d = Inl (ValidationError m)
             \<and> update e k d s = Inl (ValidationError m)"
  using assms by (auto simp: update_def validateUpdateBookData_def split: if_splits)

theorem update_validation_first_witness:
  "validateUpdateBookData (env_at 2024 7) (only_title ''  '') \<noteq> Inr ()
   \<and> validateUpdateBookData (env_at 2024 7) no_fields \<noteq> Inr ()
   \<and> findById ''book_9_zzzzzzzzz'' one_book = None
   \<and> update (env_at 2024 7) ''book_9_zzzzzzzzz'' (only_title ''  '') one_book
       = Inl (ValidationError ''Title must be a non-empty string'')
   \<and> update (env_at 2024 7) ''book_9_zzzzzzzzz'' no_fields one_book
       = Inl (ValidationError ''At least one field must be provided for update'')"
proof -
  have h: "validateUpdateBookData (env_at 2024 7) (only_title ''  '') \<noteq> Inr ()"
    by code_simp
  have h': "validateUpdateBookData (env_at 2024 7) no_fields \<noteq> Inr ()"
    by code_simp
  have n: "findById ''book_9_zzzzzzzzz'' one_book = None"
    by code_simp
  have v: "validateUpdateBookData (env_at 2024 7) (only_title ''  '')
             = Inl (ValidationError ''Title must be a non-empty string'')"
    by code_simp
  have v': "validateUpdateBookData (env_at 2024 7) no_fields
             = Inl (ValidationError ''At least one field must be provided for update'')"
    by code_simp
  from update_validation_first [OF h, of "''book_9_zzzzzzzzz''" one_book]
    update_validation_first [OF h', of "''book_9_zzzzzzzzz''" one_book] h h' n v v'
  show ?thesis by auto
qed

section \<open>A created record can be read back\<close>

text \<open>
  C8. For a creation request that passes validation, \<open>create\<close> returns a record, and
  \<open>findById\<close> on the identifier of that record, in the store \<open>create\<close> leaves, returns
  the same record: identifier, title, author and year.
\<close>

theorem create_findById:
  assumes "validateCreateBookData e d = Inr ()"
  shows "\<exists>b s'. create e d s = Inr (b, s') \<and> findById (book_id b) s' = Some b"
proof -
  from assms obtain t a where "c_title d = JStr t" "c_author d = JStr a"
    unfolding validateCreate_ok by blast
  with assms show ?thesis
    by (simp add: create_def findById_def Map_get_Map_set Let_def)
qed

theorem create_findById_witness:
  "validateCreateBookData (env_at 2024 1) (new_book ''  Dune '' ''Frank Herbert'' 1965) = Inr ()
   \<and> (\<exists>b s'. create (env_at 2024 1) (new_book ''  Dune '' ''Frank Herbert'' 1965) [] = Inr (b, s')
         \<and> findById (book_id b) s' = Some b)"
proof -
  have h: "validateCreateBookData (env_at 2024 1) (new_book ''  Dune '' ''Frank Herbert'' 1965)
             = Inr ()"
    by code_simp
  from create_findById [OF h, of "[]"] h show ?thesis by blast
qed

section \<open>Update merges the supplied fields\<close>

text \<open>
  C4. For a record stored under \<open>k\<close> and an update request that passes validation,
  \<open>update\<close> returns a record and stores it under \<open>k\<close>. That record has the identifier
  of the previous one; a supplied title or author is the supplied string trimmed, a
  supplied year is the supplied year, and a field that is not supplied is the previous
  record's.
\<close>

theorem update_merge:
  assumes "findById k s = Some old" and "validateUpdateBookData e d = Inr ()"
  shows "\<exists>b s'. update e k d s = Inr (Some b, s') \<and> findById k s' = Some b
           \<and> book_id b = book_id old
           \<and> (\<forall>t. field (u_title d) = JStr t \<longrightarrow> title b = trim t)
           \<and> (\<forall>a. field (u_author d) = JStr a \<longrightarrow> author b = trim a)
           \<and> (field (u_year d) \<noteq> JUndefined \<longrightarrow> year b = field (u_year d))
           \<and> (field (u_title d) = JUndefined \<longrightarrow> title b = title old)
           \<and> (field (u_author d) = JUndefined \<longrightarrow> author b = author old)
           \<and> (field (u_year d) = JUndefined \<longrightarrow> year b = year old)"
proof -
  from assms(2)
  have t: "field (u_title d) = JUndefined \<or> (\<exists>t. field (u_title d) = JStr t \<and> trim t \<noteq> [])"
    and a: "field (u_author d) = JUndefined \<or> (\<exists>a. field (u_author d) = JStr a \<and> trim a \<noteq> [])"
    unfolding validateUpdate_ok by blast+
  from t a assms show ?thesis
    by (auto simp: update_def findById_def Map_get_Map_set Let_def sanitizeString_def)
qed

theorem update_merge_witness:
  "findById ''book_1_4fzyo82mv'' one_book = Some dune
   \<and> validateUpdateBookData (env_at 2024 7) (title_and_year '' Dune Messiah '' 1969) = Inr ()
   \<and> (\<exists>b s'. update (env_at 2024 7) ''book_1_4fzyo82mv'' (title_and_year '' Dune Messiah '' 1969)
                one_book = Inr (Some b, s')
         \<and> findById ''book_1_4fzyo82mv'' s' = Some b
         \<and> book_id b = ''book_1_4fzyo82mv'' \<and> title b = str ''Dune Messiah''
         \<and> author b = str ''Frank Herbert'' \<and> year b = int_num 1969)"
proof -
  have f: "findById ''book_1_4fzyo82mv'' one_book = Some dune"
    by code_simp
  have v: "validateUpdateBookData (env_at 2024 7) (title_and_year '' Dune Messiah '' 1969) = Inr ()"
    by code_simp
  have t: "field (u_title (title_and_year '' Dune Messiah '' 1969)) = JStr (str '' Dune Messiah '')"
    and a: "field (u_author (title_and_year '' Dune Messiah '' 1969)) = JUndefined"
    and y: "field (u_year (title_and_year '' Dune Messiah '' 1969)) = int_num 1969"
    by (simp_all add: title_and_year_def field_def)
  have y': "int_num 1969 \<noteq> JUndefined"
    by (simp add: int_num_def)
  have tr: "trim (str '' Dune Messiah '') = str ''Dune Messiah''"
    by code_simp
  have d: "book_id dune = ''book_1_4fzyo82mv''" "author dune = str ''Frank Herbert''"
    by (simp_all add: dune_def)
  from update_merge [OF f v] f v show ?thesis
    unfolding t a y using y' tr d by auto
qed

section \<open>\<open>safeUpdate\<close> on an identifier the store does not hold\<close>

text \<open>
  C6. For an identifier the store does not hold and an update request that passes
  validation, \<open>safeUpdate\<close> returns a failure whose error is the \<open>BookNotFoundError\<close>
  made from that identifier, and the message of that error contains the identifier;
  \<open>update\<close> on the same arguments returns the absent result and raises nothing. The
  store is the same after both.
\<close>

theorem safeUpdate_not_found:
  assumes "findById k s = None" and "validateUpdateBookData e d = Inr ()"
  shows "safeUpdate e k d s = (Failure (BookNotFoundError k), s)
         \<and> sublist k (message (BookNotFoundError k))
         \<and> update e k d s = Inr (None, s)"
proof -
  have "message (BookNotFoundError k)
          = (''Book with id '' @ [CHR 0x27]) @ k @ ([CHR 0x27] @ '' not found'')"
    by simp
  then have "sublist k (message (BookNotFoundError k))"
    unfolding sublist_def by blast
  with assms show ?thesis
    by (simp add: safeUpdate_def update_def findById_def)
qed

theorem safeUpdate_not_found_witness:
  "findById ''book_9_zzzzzzzzz'' one_book = None
   \<and> validateUpdateBookData (env_at 2024 7) (only_year 1969) = Inr ()
   \<and> safeUpdate (env_at 2024 7) ''book_9_zzzzzzzzz'' (only_year 1969) one_book
       = (Failure (BookNotFoundError ''book_9_zzzzzzzzz''), one_book)
   \<and> message (BookNotFoundError ''book_9_zzzzzzzzz'')
       = ''Book with id '' @ [CHR 0x27] @ ''book_9_zzzzzzzzz'' @ [CHR 0x27] @ '' not found''
   \<and> update (env_at 2024 7) ''book_9_zzzzzzzzz'' (only_year 1969) one_book = Inr (None, one_book)"
proof -
  have f: "findById ''book_9_zzzzzzzzz'' one_book = None"
    by code_simp
  have v: "validateUpdateBookData (env_at 2024 7) (only_year 1969) = Inr ()"
    by code_simp
  from safeUpdate_not_found [OF f v] f v show ?thesis by simp
qed

section \<open>Searching by author and by title\<close>

lemma js_includes_sublist: "js_includes hay needle = sublist needle hay"
  by (induction hay) (simp_all add: sublist_Cons_right)

lemma latin1_append [simp]: "latin1 (a @ b) = (latin1 a \<and> latin1 b)"
  by (auto simp: latin1_def)

lemma latin1_Cons [simp]: "latin1 (c # cs) = (0 \<le> c \<and> c < 256 \<and> latin1 cs)"
  by (auto simp: latin1_def)

lemma lowerFrom_latin1: "latin1 s \<Longrightarrow> lowerFrom seen s = map lowerUnit s"
  by (induction s arbitrary: seen) auto

lemma toLowerCase_latin1: "latin1 s \<Longrightarrow> toLowerCase s = map lowerUnit s"
  by (simp add: toLowerCase_def lowerFrom_latin1)

lemma isWhiteSpace_lowerUnit: "isWhiteSpace (lowerUnit c) = isWhiteSpace c"
  by (auto simp: isWhiteSpace_def lowerUnit_def)

lemma dropWhile_lower:
  "dropWhile isWhiteSpace (map lowerUnit s) = map lowerUnit (dropWhile isWhiteSpace s)"
  by (induction s) (simp_all add: isWhiteSpace_lowerUnit)

lemma trim_map_lowerUnit: "trim (map lowerUnit s) = map lowerUnit (trim s)"
  by (simp add: trim_def trimEnd_def trimStart_def dropWhile_lower rev_map)

lemma latin1_trim: "latin1 s \<Longrightarrow> latin1 (trim s)"
proof -
  assume s: "latin1 s"
  have "set (trim s) \<subseteq> set s"
  proof
    fix x assume "x \<in> set (trim s)"
    then have "x \<in> set (dropWhile isWhiteSpace (rev (dropWhile isWhiteSpace s)))"
      by (simp add: trim_def trimEnd_def trimStart_def)
    then have "x \<in> set (rev (dropWhile isWhiteSpace s))"
      by (rule set_dropWhileD)
    then have "x \<in> set (dropWhile isWhiteSpace s)"
      by simp
    then show "x \<in> set s"
      by (rule set_dropWhileD)
  qed
  with s show ?thesis unfolding latin1_def by blast
qed

lemma contains_latin1:
  assumes "latin1 hay" and "latin1 needle"
  shows "contains_ignoring_case hay needle = sublist (map lowerUnit needle) (map lowerUnit hay)"
proof
  assume "contains_ignoring_case hay needle"
  then obtain b m a where h: "hay = b @ m @ a" and e: "toLowerCase m = toLowerCase needle"
    unfolding contains_ignoring_case_def equal_ignoring_case_def by blast
  from h assms(1) have "latin1 m" by simp
  with e assms(2) have "map lowerUnit m = map lowerUnit needle"
    by (simp add: toLowerCase_latin1)
  with h have "map lowerUnit hay = map lowerUnit b @ map lowerUnit needle @ map lowerUnit a"
    by simp
  then show "sublist (map lowerUnit needle) (map lowerUnit hay)"
    unfolding sublist_def by blast
next
  assume "sublist (map lowerUnit needle) (map lowerUnit hay)"
  then obtain ps ss where "map lowerUnit hay = ps @ map lowerUnit needle @ ss"
    unfolding sublist_def by blast
  then obtain b r where br: "hay = b @ r" "map lowerUnit needle @ ss = map lowerUnit r"
    by (auto simp: map_eq_append_conv)
  then obtain m a where ma: "r = m @ a" "map lowerUnit m = map lowerUnit needle"
    by (auto simp: append_eq_map_conv)
  from br ma assms(1) have "latin1 m" by simp
  with ma assms(2) have "toLowerCase m = toLowerCase needle"
    by (simp add: toLowerCase_latin1)
  with br ma show "contains_ignoring_case hay needle"
    unfolding contains_ignoring_case_def equal_ignoring_case_def by blast
qed

lemma includes_latin1:
  assumes "latin1 q" and "latin1 hay"
  shows "js_includes (toLowerCase hay) (trim (toLowerCase q))
           = contains_ignoring_case hay (trim q)"
  using assms
  by (simp add: js_includes_sublist toLowerCase_latin1 trim_map_lowerUnit latin1_trim
      contains_latin1)

text \<open>
  On strings of Latin-1 the two searches return exactly the records of \<open>findAll\<close>, in
  the order of \<open>findAll\<close>, whose author (or title) contains, but for case, the search
  string trimmed.
\<close>

lemma search_latin1:
  assumes "latin1 q" and "\<forall>b \<in> set (findAll s). latin1 (author b) \<and> latin1 (title b)"
  shows "findByAuthor q s = filter (\<lambda>b. contains_ignoring_case (author b) (trim q)) (findAll s)"
    and "findByTitle q s = filter (\<lambda>b. contains_ignoring_case (title b) (trim q)) (findAll s)"
  using assms
  by (auto simp: findByAuthor_def findByTitle_def includes_latin1 intro!: filter_cong)

text \<open>
  C7. The search does not find every record whose title contains the search string but
  for case. A store holds one book, created with the title \<open>PHILOSOPHIA\<close> in Greek
  capitals. Its title starts with the capitals of \<open>PHILOS\<close>, so it contains that search
  string as it is written. \<open>toLowerCase\<close> turns the sigma that ends the search string
  into a final sigma and the sigma inside the title into a plain one, so \<open>includes\<close>
  finds no match and \<open>findByTitle\<close> returns nothing. The same title is found by the
  search string without its last letter, and the author by a search string in another
  case with spaces around it.
\<close>

theorem search_misses_final_sigma:
  "create (env_at 2024 3) greek_request [] = Inr (greek_book, greek_shelf)
   \<and> findAll greek_shelf = [greek_book]
   \<and> title greek_book = philos @ [0x39F, 0x3A6, 0x399, 0x391]
   \<and> trim philos = philos
   \<and> contains_ignoring_case (title greek_book) (trim philos)
   \<and> toLowerCase philos = [0x3C6, 0x3B9, 0x3BB, 0x3BF, 0x3C2]
   \<and> toLowerCase (title greek_book) = [0x3C6, 0x3B9, 0x3BB, 0x3BF, 0x3C3, 0x3BF, 0x3C6, 0x3B9, 0x3B1]
   \<and> findByTitle philos greek_shelf = []
   \<and> findByTitle [0x3A6, 0x399, 0x39B, 0x39F] greek_shelf = [greek_book]
   \<and> findByAuthor (str ''  PLAT '') greek_shelf = [greek_book]
   \<and> findByAuthor (str ''Dune'') greek_shelf = []"
proof -
  have "create (env_at 2024 3) greek_request [] = Inr (greek_book, greek_shelf)"
    by code_simp
  moreover have "findAll greek_shelf = [greek_book]"
    by code_simp
  moreover have "title greek_book = philos @ [0x39F, 0x3A6, 0x399, 0x391]"
    by code_simp
  moreover have tp: "trim philos = philos"
    by code_simp
  moreover have "contains_ignoring_case (title greek_book) (trim philos)"
  proof -
    have "title greek_book = [] @ philos @ [0x39F, 0x3A6, 0x399, 0x391]"
      by code_simp
    moreover have "equal_ignoring_case philos (trim philos)"
      unfolding tp equal_ignoring_case_def ..
    ultimately show ?thesis
      unfolding contains_ignoring_case_def by blast
  qed
  moreover have "toLowerCase philos = [0x3C6, 0x3B9, 0x3BB, 0x3BF, 0x3C2]"
    by code_simp
  moreover have "toLowerCase (title greek_book)
      = [0x3C6, 0x3B9, 0x3BB, 0x3BF, 0x3C3, 0x3BF, 0x3C6, 0x3B9, 0x3B1]"
    by code_simp
  moreover have "findByTitle philos greek_shelf = []"
    by code_simp
  moreover have "findByTitle [0x3A6, 0x399, 0x39B, 0x39F] greek_shelf = [greek_book]"
    by code_simp
  moreover have "findByAuthor (str ''  PLAT '') greek_shelf = [greek_book]"
    by code_simp
  moreover have "findByAuthor (str ''Dune'') greek_shelf = []"
    by code_simp
  ultimately show ?thesis by simp
qed


section \<open>What \<open>create\<close> and \<open>update\<close> return\<close>

lemma int_num_inject [simp]: "(int_num x = int_num y) = (x = y)"
  by (simp add: int_num_def)

lemma year_in_range_int_num [simp]: "year_in_range cy (int_num y) = (0 \<le> y \<and> y \<le> cy)"
  by (auto simp: year_in_range_def)

lemma create_raises: "validateCreateBookData e c = Inl err \<Longrightarrow> create e c s = Inl err"
  by (simp add: create_def)

lemma create_returns:
  assumes "validateCreateBookData e c = Inr ()"
  shows "\<exists>t a. c_title c = JStr t \<and> c_author c = JStr a \<and> trim t \<noteq> [] \<and> trim a \<noteq> []
           \<and> year_in_range (fullYear e) (c_year c)
           \<and> create e c s =
               Inr (\<lparr>book_id = generateId e, title = trim t, author = trim a, year = c_year c\<rparr>,
                    Map_set (generateId e)
                      \<lparr>book_id = generateId e, title = trim t, author = trim a, year = c_year c\<rparr> s)"
proof -
  from assms obtain t a where "c_title c = JStr t" "c_author c = JStr a" "trim t \<noteq> []" "trim a \<noteq> []"
    "year_in_range (fullYear e) (c_year c)"
    unfolding validateCreate_ok by blast
  with assms show ?thesis
    by (simp add: create_def Let_def sanitizeString_def)
qed

lemma update_raises: "validateUpdateBookData e d = Inl err \<Longrightarrow> update e k d s = Inl err"
  by (simp add: update_def)


lemma int_num_not_undefined [simp]: "int_num y \<noteq> JUndefined"
  by (simp add: int_num_def)

lemma update_returns:
  assumes "validateUpdateBookData e d = Inr ()" and "Map_get k s = Some old"
  shows "update e k d s = Inr (Some (merged old d), Map_set k (merged old d) s)"
proof -
  from assms(1)
  have t: "field (u_title d) = JUndefined \<or> (\<exists>t. field (u_title d) = JStr t \<and> trim t \<noteq> [])"
    and a: "field (u_author d) = JUndefined \<or> (\<exists>a. field (u_author d) = JStr a \<and> trim a \<noteq> [])"
    unfolding validateUpdate_ok by blast+
  from t a assms show ?thesis
    by (auto simp: update_def Let_def sanitizeString_def merged_def)
qed

lemma sum_unit_cases: "(x :: error + unit) \<noteq> Inr () \<Longrightarrow> \<exists>err. x = Inl err"
  by (cases x) auto

section \<open>The bounds of the year\<close>

text \<open>
  C3, amended. For a creation request whose title and author are strings that are not
  blank, \<open>create\<close> succeeds exactly when the year is an integer from 0 to the calendar
  year, and raises a \<open>ValidationError\<close> otherwise. For an update request that supplies
  a year, against an identifier the store holds, and whose title and author are each
  either not supplied or a string that is not blank, \<open>update\<close> succeeds exactly when
  the year is such an integer, and raises a \<open>ValidationError\<close> otherwise. The years 0
  and (when it is not negative) the calendar year are in range; \<open>-1\<close> and the calendar
  year plus one are not.
\<close>

theorem year_boundary:
  "(c_title c = JStr t \<and> non_blank t \<and> c_author c = JStr a \<and> non_blank a \<longrightarrow>
      ((\<exists>b s'. create e c s = Inr (b, s')) = year_in_range (fullYear e) (c_year c))
      \<and> ((\<exists>m. create e c s = Inl (ValidationError m)) = (\<not> year_in_range (fullYear e) (c_year c))))
   \<and> (findById k s = Some old \<and> field (u_year d) \<noteq> JUndefined
        \<and> (field (u_title d) = JUndefined \<or> (\<exists>t'. field (u_title d) = JStr t' \<and> non_blank t'))
        \<and> (field (u_author d) = JUndefined \<or> (\<exists>a'. field (u_author d) = JStr a' \<and> non_blank a')) \<longrightarrow>
      ((\<exists>b s'. update e k d s = Inr (Some b, s')) = year_in_range (fullYear e) (field (u_year d)))
      \<and> ((\<exists>m. update e k d s = Inl (ValidationError m))
           = (\<not> year_in_range (fullYear e) (field (u_year d)))))
   \<and> (0 \<le> fullYear e \<longrightarrow>
        year_in_range (fullYear e) (int_num 0) \<and> year_in_range (fullYear e) (int_num (fullYear e)))
   \<and> \<not> year_in_range (fullYear e) (int_num (- 1))
   \<and> \<not> year_in_range (fullYear e) (int_num (fullYear e + 1))"
proof (intro conjI impI)
  assume c: "c_title c = JStr t \<and> non_blank t \<and> c_author c = JStr a \<and> non_blank a"
  then have v: "(validateCreateBookData e c = Inr ()) = year_in_range (fullYear e) (c_year c)"
    by (simp add: validateCreate_ok non_blank_def)
  show "(\<exists>b s'. create e c s = Inr (b, s')) = year_in_range (fullYear e) (c_year c)"
    using v create_returns [of e c s] create_raises [of e c _ s] sum_unit_cases [of "validateCreateBookData e c"]
    by (metis Inl_Inr_False)
  show "(\<exists>m. create e c s = Inl (ValidationError m)) = (\<not> year_in_range (fullYear e) (c_year c))"
    using v create_returns [of e c s] create_raises [of e c _ s] sum_unit_cases [of "validateCreateBookData e c"]
      validate_errors(2) [of e c]
    by (metis Inl_Inr_False)
next
  assume u: "findById k s = Some old \<and> field (u_year d) \<noteq> JUndefined
        \<and> (field (u_title d) = JUndefined \<or> (\<exists>t'. field (u_title d) = JStr t' \<and> non_blank t'))
        \<and> (field (u_author d) = JUndefined \<or> (\<exists>a'. field (u_author d) = JStr a' \<and> non_blank a'))"
  then have "Object_keys_length d \<noteq> 0"
    by (auto simp: Object_keys_length_def field_def)
  with u have v: "(validateUpdateBookData e d = Inr ()) = year_in_range (fullYear e) (field (u_year d))"
    by (simp add: validateUpdate_ok non_blank_def)
  from u have g: "Map_get k s = Some old" by (simp add: findById_def)
  show "(\<exists>b s'. update e k d s = Inr (Some b, s')) = year_in_range (fullYear e) (field (u_year d))"
    using v update_returns [OF _ g, of e d] update_raises [of e d _ k s] sum_unit_cases [of "validateUpdateBookData e d"]
    by (metis Inl_Inr_False)
  show "(\<exists>m. update e k d s = Inl (ValidationError m)) = (\<not> year_in_range (fullYear e) (field (u_year d)))"
    using v update_returns [OF _ g, of e d] update_raises [of e d _ k s] sum_unit_cases [of "validateUpdateBookData e d"]
      validate_errors(1) [of e d]
    by (metis Inl_Inr_False)
qed simp_all

theorem year_boundary_witness:
  "non_blank (str ''Dune'') \<and> non_blank (str ''Frank Herbert'')
   \<and> findById ''book_1_4fzyo82mv'' one_book = Some dune
   \<and> (\<exists>b s'. create (env_at 2024 1) (new_book ''Dune'' ''Frank Herbert'' 2024) one_book = Inr (b, s'))
   \<and> (\<exists>b s'. update (env_at 2024 1) ''book_1_4fzyo82mv'' (only_year 0) one_book = Inr (Some b, s'))
   \<and> (\<exists>m. create (env_at 2024 1) (new_book ''Dune'' ''Frank Herbert'' 2025) one_book
          = Inl (ValidationError m))
   \<and> (\<exists>m. update (env_at 2024 1) ''book_1_4fzyo82mv'' (only_year (- 1)) one_book
          = Inl (ValidationError m))"
proof -
  have nb: "non_blank (str ''Dune'')" "non_blank (str ''Frank Herbert'')"
    by code_simp+
  have f: "findById ''book_1_4fzyo82mv'' one_book = Some dune"
    by code_simp
  have ok: "(\<exists>b s'. create (env_at 2024 1) (new_book ''Dune'' ''Frank Herbert'' 2024) one_book = Inr (b, s'))
      \<and> (\<exists>b s'. update (env_at 2024 1) ''book_1_4fzyo82mv'' (only_year 0) one_book = Inr (Some b, s'))"
    using nb f
      year_boundary [of "new_book ''Dune'' ''Frank Herbert'' 2024" "str ''Dune''" "str ''Frank Herbert''"
        "env_at 2024 1" one_book "''book_1_4fzyo82mv''" dune "only_year 0"]
    by (simp add: new_book_def only_year_def field_def env_at_def)
  have bad: "(\<exists>m. create (env_at 2024 1) (new_book ''Dune'' ''Frank Herbert'' 2025) one_book
          = Inl (ValidationError m))
      \<and> (\<exists>m. update (env_at 2024 1) ''book_1_4fzyo82mv'' (only_year (- 1)) one_book
          = Inl (ValidationError m))"
    using nb f
      year_boundary [of "new_book ''Dune'' ''Frank Herbert'' 2025" "str ''Dune''" "str ''Frank Herbert''"
        "env_at 2024 1" one_book "''book_1_4fzyo82mv''" dune "only_year (- 1)"]
    by (simp add: new_book_def only_year_def field_def env_at_def)
  from nb f ok bad show ?thesis by simp
qed

text \<open>
  Without the condition on the other supplied fields the equivalence fails: an update
  that supplies a year in range together with a blank title is refused.
\<close>

theorem year_boundary_counterexample:
  "findById ''book_1_4fzyo82mv'' one_book = Some dune
   \<and> field (u_year (title_and_year ''  '' 1969)) = int_num 1969
   \<and> year_in_range (fullYear (env_at 2024 7)) (int_num 1969)
   \<and> update (env_at 2024 7) ''book_1_4fzyo82mv'' (title_and_year ''  '' 1969) one_book
       = Inl (ValidationError ''Title must be a non-empty string'')"
proof -
  have "update (env_at 2024 7) ''book_1_4fzyo82mv'' (title_and_year ''  '' 1969) one_book
       = Inl (ValidationError ''Title must be a non-empty string'')" by code_simp
  moreover have "findById ''book_1_4fzyo82mv'' one_book = Some dune" by code_simp
  ultimately show ?thesis by (simp add: title_and_year_def field_def env_at_def)
qed

section \<open>The identifier generator\<close>

lemma digit_codes: "\<forall>n \<in> set [0..<10]. of_char (''0123456789'' ! n) = 48 + n"
  by code_simp

lemma digit_code: "n < 10 \<Longrightarrow> of_char (''0123456789'' ! n) = 48 + n"
  using digit_codes by simp

lemma digit_inj:
  assumes "n < 10" "m < 10" "''0123456789'' ! n = ''0123456789'' ! m"
  shows "n = m"
proof -
  have "(of_char (''0123456789'' ! n) :: nat) = of_char (''0123456789'' ! m)"
    using assms(3) by simp
  then show ?thesis using assms(1,2) by (simp add: digit_code)
qed

lemma show_nat_nonempty: "show_nat n \<noteq> []"
  by (subst show_nat.simps) simp

lemma show_nat_digits: "set (show_nat n) \<subseteq> set ''0123456789''"
proof (induction n rule: show_nat.induct)
  case (1 n)
  have d: "\<And>k. k < 10 \<Longrightarrow> ''0123456789'' ! k \<in> set ''0123456789''"
    by (rule nth_mem) simp
  show ?case
  proof (cases "n < 10")
    case True
    then show ?thesis using d [of n] by (subst show_nat.simps) simp
  next
    case False
    then show ?thesis using 1 d [of "n mod 10"] by (subst show_nat.simps) simp
  qed
qed

lemma show_nat_small: "n < 10 \<Longrightarrow> show_nat n = [''0123456789'' ! n]"
  by (subst show_nat.simps) simp

lemma show_nat_large:
  "\<not> n < 10 \<Longrightarrow> show_nat n = show_nat (n div 10) @ [''0123456789'' ! (n mod 10)]"
  by (subst show_nat.simps) simp

lemma show_nat_large_length: "\<not> n < 10 \<Longrightarrow> 2 \<le> length (show_nat n)"
proof -
  assume n: "\<not> n < 10"
  have "show_nat (n div 10) \<noteq> []"
    by (rule show_nat_nonempty)
  then have "1 \<le> length (show_nat (n div 10))"
    by (cases "show_nat (n div 10)") simp_all
  then show ?thesis
    unfolding show_nat_large [OF n] by simp
qed

lemma show_nat_inj: "show_nat n = show_nat m \<Longrightarrow> n = m"
proof (induction n arbitrary: m rule: show_nat.induct)
  case (1 n)
  note eq = \<open>show_nat n = show_nat m\<close>
  show ?case
  proof (cases "n < 10")
    case n: True
    show ?thesis
    proof (cases "m < 10")
      case True
      from eq have "''0123456789'' ! n = ''0123456789'' ! m"
        unfolding show_nat_small [OF n] show_nat_small [OF True] by simp
      with n True show ?thesis by (rule digit_inj)
    next
      case False
      from eq have "length (show_nat n) = length (show_nat m)" by simp
      with show_nat_large_length [OF False] show ?thesis
        unfolding show_nat_small [OF n] by simp
    qed
  next
    case n: False
    show ?thesis
    proof (cases "m < 10")
      case True
      from eq have "length (show_nat n) = length (show_nat m)" by simp
      with show_nat_large_length [OF n] show ?thesis
        unfolding show_nat_small [OF True] by simp
    next
      case False
      from eq have h: "show_nat (n div 10) = show_nat (m div 10)"
        and d: "''0123456789'' ! (n mod 10) = ''0123456789'' ! (m mod 10)"
        unfolding show_nat_large [OF n] show_nat_large [OF False] by simp_all
      from h have q: "n div 10 = m div 10"
        by (rule "1.IH" [OF n])
      have r: "n mod 10 = m mod 10"
        by (rule digit_inj [OF _ _ d]) simp_all
      have "n = 10 * (n div 10) + n mod 10" by simp
      also have "\<dots> = 10 * (m div 10) + m mod 10" by (simp only: q r)
      also have "\<dots> = m" by simp
      finally show ?thesis .
    qed
  qed
qed

lemma minus_not_show_nat: "CHR ''-'' # xs \<noteq> show_nat n"
proof
  assume "CHR ''-'' # xs = show_nat n"
  then have "CHR ''-'' \<in> set (show_nat n)"
    by (metis list.set_intros(1))
  with show_nat_digits [of n] have "CHR ''-'' \<in> set ''0123456789''"
    by (rule subsetD)
  then show False by simp
qed

lemma show_int_inj: "show_int i = show_int j \<Longrightarrow> i = j"
proof -
  assume eq: "show_int i = show_int j"
  show ?thesis
  proof (cases "i < 0")
    case i: True
    show ?thesis
    proof (cases "j < 0")
      case True
      with i eq have "show_nat (nat (- i)) = show_nat (nat (- j))"
        by (simp add: show_int_def)
      then have "nat (- i) = nat (- j)" by (rule show_nat_inj)
      with i True show ?thesis by simp
    next
      case False
      with i eq have "CHR ''-'' # show_nat (nat (- i)) = show_nat (nat j)"
        by (simp add: show_int_def)
      with minus_not_show_nat show ?thesis by blast
    qed
  next
    case i: False
    show ?thesis
    proof (cases "j < 0")
      case True
      with i eq have "CHR ''-'' # show_nat (nat (- j)) = show_nat (nat i)"
        by (simp add: show_int_def)
      with minus_not_show_nat show ?thesis by blast
    next
      case False
      with i eq have "show_nat (nat i) = show_nat (nat j)"
        by (simp add: show_int_def)
      then have "nat i = nat j" by (rule show_nat_inj)
      with i False show ?thesis by simp
    qed
  qed
qed

lemma takeWhile_separator: "x \<notin> set xs \<Longrightarrow> takeWhile (\<lambda>c. c \<noteq> x) (xs @ x # ys) = xs"
proof (induction xs)
  case Nil
  show ?case by simp
next
  case (Cons a xs)
  then have "a \<noteq> x" and "x \<notin> set xs" by auto
  with Cons.IH show ?case by simp
qed

lemma split_at_separator:
  assumes "x \<notin> set xs" and "x \<notin> set xs'"
  shows "(xs @ x # ys = xs' @ x # ys') = (xs = xs' \<and> ys = ys')"
proof
  assume eq: "xs @ x # ys = xs' @ x # ys'"
  then have "takeWhile (\<lambda>c. c \<noteq> x) (xs @ x # ys) = takeWhile (\<lambda>c. c \<noteq> x) (xs' @ x # ys')"
    by (rule arg_cong)
  then have "xs = xs'"
    unfolding takeWhile_separator [OF assms(1)] takeWhile_separator [OF assms(2)] .
  with eq show "xs = xs' \<and> ys = ys'" by simp
next
  assume "xs = xs' \<and> ys = ys'"
  then show "xs @ x # ys = xs' @ x # ys'" by simp
qed

lemma underscore_not_in_show_nat: "CHR ''_'' \<notin> set (show_nat n)"
proof
  assume "CHR ''_'' \<in> set (show_nat n)"
  with show_nat_digits [of n] have "CHR ''_'' \<in> set ''0123456789''"
    by (rule subsetD)
  then show False by simp
qed

lemma underscore_not_in_show_int: "CHR ''_'' \<notin> set (show_int i)"
proof (cases "i < 0")
  case True
  then have "show_int i = CHR ''-'' # show_nat (nat (- i))"
    by (simp add: show_int_def)
  then show ?thesis
    using underscore_not_in_show_nat [of "nat (- i)"] by simp
next
  case False
  then have "show_int i = show_nat (nat i)"
    by (simp add: show_int_def)
  then show ?thesis
    using underscore_not_in_show_nat [of "nat i"] by simp
qed

lemma generateId_shape:
  "generateId e = ''book_'' @ (show_int (now_ms e) @ CHR ''_'' # substr 2 9 (random36 e))"
  by (simp add: generateId_def)

lemma generateId_eq_iff:
  "(generateId e1 = generateId e2)
     = (now_ms e1 = now_ms e2 \<and> substr 2 9 (random36 e1) = substr 2 9 (random36 e2))"
proof -
  have "(generateId e1 = generateId e2)
        = (show_int (now_ms e1) @ CHR ''_'' # substr 2 9 (random36 e1)
            = show_int (now_ms e2) @ CHR ''_'' # substr 2 9 (random36 e2))"
    unfolding generateId_shape by (rule same_append_eq)
  also have "\<dots> = (show_int (now_ms e1) = show_int (now_ms e2)
            \<and> substr 2 9 (random36 e1) = substr 2 9 (random36 e2))"
    by (rule split_at_separator) (rule underscore_not_in_show_int)+
  also have "(show_int (now_ms e1) = show_int (now_ms e2)) = (now_ms e1 = now_ms e2)"
  proof
    assume "show_int (now_ms e1) = show_int (now_ms e2)"
    then show "now_ms e1 = now_ms e2" by (rule show_int_inj)
  next
    assume "now_ms e1 = now_ms e2"
    then show "show_int (now_ms e1) = show_int (now_ms e2)" by (rule arg_cong)
  qed
  finally show ?thesis .
qed

lemma generateId_prefix: "prefix ''book_'' (generateId e)"
  unfolding generateId_def by (rule prefixI) simp

text \<open>
  C9, amended. A generated identifier is never empty: it starts with \<open>book_\<close>. Two
  generated identifiers are equal exactly when the two calls read the same millisecond
  and the same first nine digits after the point of the random fraction in base 36:
  they differ as soon as either differs.
\<close>

theorem generateId_contract:
  "generateId e \<noteq> []
   \<and> prefix ''book_'' (generateId e)
   \<and> (generateId e1 = generateId e2)
       = (now_ms e1 = now_ms e2 \<and> substr 2 9 (random36 e1) = substr 2 9 (random36 e2))"
proof (intro conjI)
  show "generateId e \<noteq> []"
    unfolding generateId_shape by simp
  show "prefix ''book_'' (generateId e)"
    by (rule generateId_prefix)
  show "(generateId e1 = generateId e2)
       = (now_ms e1 = now_ms e2 \<and> substr 2 9 (random36 e1) = substr 2 9 (random36 e2))"
    by (rule generateId_eq_iff)
qed

text \<open>
  Two calls within one millisecond whose random fractions differ only after the ninth
  digit return the same identifier.
\<close>

theorem generateId_contract_counterexample:
  "random36 (env_with 2024 1 ''0.4fzyo82mvyt'') \<noteq> random36 (env_with 2024 1 ''0.4fzyo82mvzm'')
   \<and> generateId (env_with 2024 1 ''0.4fzyo82mvyt'') = generateId (env_with 2024 1 ''0.4fzyo82mvzm'')"
  by (simp add: env_with_def generateId_def substr_def)

section \<open>What a call leaves alone\<close>

lemma Map_set_fresh: "Map_get k s = None \<Longrightarrow> Map_set k v s = s @ [(k, v)]"
  unfolding Map_get_def by (induction s) (auto split: if_splits)

lemma Map_get_Map_delete:
  "Map_get k' (snd (Map_delete k s)) = (if k' = k then None else Map_get k' s)"
  unfolding Map_get_def Map_delete_def by (induction s) auto

lemma step_Update_other: "k2 \<noteq> k \<Longrightarrow> Map_get k2 (step e (Update k d) s) = Map_get k2 s"
  by (auto simp: update_def Let_def Map_get_Map_set split: sum.splits option.splits if_splits)

lemma step_Create_other:
  "k2 \<noteq> generateId e \<Longrightarrow> Map_get k2 (step e (Create c) s) = Map_get k2 s"
  by (auto simp: create_def Let_def Map_get_Map_set split: sum.splits)

text \<open>
  C10, amended. For an identifier \<open>k2\<close> other than \<open>k\<close>, \<open>update\<close> and \<open>delete\<close> on
  \<open>k\<close> leave what is stored under \<open>k2\<close> as it was (the store after a call that throws
  is the store before it). \<open>create\<close> leaves what is stored under every identifier other
  than the generated one as it was; when the generated identifier is not yet in the
  store, the new store is the old one with one entry appended, under that identifier.
\<close>

theorem frame_property:
  "(k2 \<noteq> k \<longrightarrow>
      findById k2 (step e (Update k d) s) = findById k2 s
      \<and> findById k2 (step e (Delete k) s) = findById k2 s)
   \<and> (k2 \<noteq> generateId e \<longrightarrow> findById k2 (step e (Create c) s) = findById k2 s)
   \<and> (findById (generateId e) s = None \<and> create e c s = Inr (b, s') \<longrightarrow>
        book_id b = generateId e \<and> s' = s @ [(book_id b, b)]
        \<and> findAll s' = findAll s @ [b] \<and> count s' = count s + 1)"
proof (intro conjI impI)
  assume "k2 \<noteq> k"
  then show "findById k2 (step e (Update k d) s) = findById k2 s"
    unfolding findById_def by (rule step_Update_other)
  show "findById k2 (step e (Delete k) s) = findById k2 s"
    using \<open>k2 \<noteq> k\<close> by (simp add: findById_def delete_def Map_get_Map_delete)
next
  assume "k2 \<noteq> generateId e"
  then show "findById k2 (step e (Create c) s) = findById k2 s"
    unfolding findById_def by (rule step_Create_other)
next
  assume a: "findById (generateId e) s = None \<and> create e c s = Inr (b, s')"
  then have v: "validateCreateBookData e c = Inr ()"
    by (cases "validateCreateBookData e c") (simp_all add: create_def)
  from create_returns [OF v, of s] a
  have b: "book_id b = generateId e" and s': "s' = Map_set (generateId e) b s"
    by auto
  from a have "Map_get (generateId e) s = None"
    by (simp add: findById_def)
  then have s'': "s' = s @ [(book_id b, b)]"
    unfolding s' b by (rule Map_set_fresh)
  show "book_id b = generateId e" by (rule b)
  show "s' = s @ [(book_id b, b)]" by (rule s'')
  show "findAll s' = findAll s @ [b]"
    by (simp add: s'' findAll_def Map_values_def)
  show "count s' = count s + 1"
    by (simp add: s'' count_def Map_size_def)
qed

theorem frame_property_witness:
  "''book_2_4fzyo82mv'' \<noteq> ''book_1_4fzyo82mv''
   \<and> findById ''book_2_4fzyo82mv''
         (step (env_at 2024 6) (Update ''book_1_4fzyo82mv'' (only_title ''New'')) five_books)
       = findById ''book_2_4fzyo82mv'' five_books
   \<and> findById ''book_2_4fzyo82mv'' (step (env_at 2024 6) (Delete ''book_1_4fzyo82mv'') five_books)
       = findById ''book_2_4fzyo82mv'' five_books
   \<and> ''book_2_4fzyo82mv'' \<noteq> generateId (env_at 2024 6)
   \<and> findById ''book_2_4fzyo82mv''
         (step (env_at 2024 6) (Create (new_book ''Book 6'' ''Author 6'' 2024)) five_books)
       = findById ''book_2_4fzyo82mv'' five_books
   \<and> findById (generateId (env_at 2024 6)) five_books = None
   \<and> (\<exists>b s'. create (env_at 2024 6) (new_book ''Book 6'' ''Author 6'' 2024) five_books = Inr (b, s')
         \<and> s' = five_books @ [(book_id b, b)] \<and> count s' = count five_books + 1)"
proof -
  have k: "''book_2_4fzyo82mv'' \<noteq> ''book_1_4fzyo82mv''"
    by simp
  have g: "''book_2_4fzyo82mv'' \<noteq> generateId (env_at 2024 6)"
    by code_simp
  have n: "findById (generateId (env_at 2024 6)) five_books = None"
    by code_simp
  have v: "validateCreateBookData (env_at 2024 6) (new_book ''Book 6'' ''Author 6'' 2024) = Inr ()"
    by code_simp
  from create_returns [OF v, of five_books] obtain b s'
    where c: "create (env_at 2024 6) (new_book ''Book 6'' ''Author 6'' 2024) five_books = Inr (b, s')"
    by blast
  from frame_property [of "''book_2_4fzyo82mv''" "''book_1_4fzyo82mv''" "env_at 2024 6"
      "only_title ''New''" five_books "new_book ''Book 6'' ''Author 6'' 2024" b s'] k g n c
  show ?thesis by blast
qed

text \<open>
  When the generator returns an identifier the store already holds, \<open>create\<close> replaces
  the record stored under it and adds no entry.
\<close>

theorem frame_property_counterexample:
  "create (env_at 2024 1) (new_book ''Dune'' ''Frank Herbert'' 1965) [] = Inr (dune, one_book)
   \<and> findById ''book_1_4fzyo82mv'' one_book = Some dune
   \<and> create (env_with 2024 1 ''0.4fzyo82mvzm'') (new_book ''Emma'' ''Jane Austen'' 1815) one_book
       = Inr (emma, [(''book_1_4fzyo82mv'', emma)])
   \<and> findById ''book_1_4fzyo82mv'' [(''book_1_4fzyo82mv'', emma)] = Some emma
   \<and> emma \<noteq> dune
   \<and> count [(''book_1_4fzyo82mv'', emma)] = count one_book"
proof -
  have "create (env_at 2024 1) (new_book ''Dune'' ''Frank Herbert'' 1965) [] = Inr (dune, one_book)"
    by code_simp
  moreover have "findById ''book_1_4fzyo82mv'' one_book = Some dune"
    by code_simp
  moreover have "create (env_with 2024 1 ''0.4fzyo82mvzm'') (new_book ''Emma'' ''Jane Austen'' 1815)
      one_book = Inr (emma, [(''book_1_4fzyo82mv'', emma)])"
    by code_simp
  moreover have "findById ''book_1_4fzyo82mv'' [(''book_1_4fzyo82mv'', emma)] = Some emma"
    by code_simp
  moreover have "emma \<noteq> dune"
    by (simp add: emma_def dune_def)
  moreover have "count [(''book_1_4fzyo82mv'', emma)] = count one_book"
    by (simp add: count_def Map_size_def one_book_def)
  ultimately show ?thesis by simp
qed

section \<open>Pagination\<close>

lemma relative_index_nat: "relative_index len (Fin (of_nat a)) = min a len"
  by (simp add: Let_def)

lemma nth_range_drop_take: "b \<le> length xs \<Longrightarrow> map (nth xs) [a..<b] = drop a (take b xs)"
  by (rule nth_equalityI) (simp_all add: min_absorb1)

lemma slice_at_indices: "slice (Fin (of_nat a)) (Fin (of_nat b)) xs = at_indices a b xs"
proof -
  have "at_indices a b xs = drop a (take (min b (length xs)) xs)"
    unfolding at_indices_def by (rule nth_range_drop_take) simp
  also have "\<dots> = take (min b (length xs) - a) (drop a xs)"
    by (rule drop_take)
  also have "\<dots> = take (min b (length xs) - min a (length xs)) (drop (min a (length xs)) xs)"
    by (cases "a \<le> length xs") (simp_all add: min_def)
  finally show ?thesis
    by (simp add: slice_def relative_index_nat Let_def)
qed

lemma clamp_page_max_min: "0 \<le> tp \<Longrightarrow> max 1 (min p tp) = clamp_page tp p"
  by (auto simp: clamp_page_def)

lemma total_pages_nonneg:
  assumes "1 \<le> k"
  shows "0 \<le> \<lceil>(of_nat n :: rat) / of_int k\<rceil>"
proof -
  from assms have "(0::rat) \<le> of_nat n / of_int k"
    by simp
  then have "(0::rat) \<le> of_int \<lceil>(of_nat n :: rat) / of_int k\<rceil>"
    by (rule order_trans) (rule le_of_int_ceiling)
  then show ?thesis by simp
qed

text \<open>
  C5, amended. For every store, every integer page and every integer page size of at
  least 1, \<open>getPaginated\<close> returns the number of records, as the number of pages the
  ceiling of the number of records over the page size, as the current page the page
  clamped into the pages from 1 to the last (1 when there is no page), as the records
  those of \<open>findAll\<close> at the indices from \<open>(currentPage - 1) * pageSize\<close> up to, not
  including, \<open>currentPage * pageSize\<close>; \<open>hasNextPage\<close> says that the current page is
  before the last and \<open>hasPreviousPage\<close> that it is after the first. With five records
  and a page size of 2, page 10 is clamped to page 3, which holds one record.
\<close>

theorem pagination_contract:
  assumes "1 \<le> k"
  shows "let r = getPaginated (Fin (of_int p)) (Fin (of_int k)) s;
             tp = \<lceil>(of_nat (count s) :: rat) / of_int k\<rceil>;
             cp = clamp_page tp p
         in totalBooks r = Fin (of_nat (count s))
            \<and> totalPages r = Fin (of_int tp)
            \<and> currentPage r = Fin (of_int cp)
            \<and> books r = at_indices (nat ((cp - 1) * k)) (nat (cp * k)) (findAll s)
            \<and> hasNextPage r = (cp < tp)
            \<and> hasPreviousPage r = (1 < cp)"
proof -
  define tp where "tp = \<lceil>(of_nat (count s) :: rat) / of_int k\<rceil>"
  define cp where "cp = clamp_page tp p"
  from assms have k0: "(of_int k :: rat) \<noteq> 0" by simp
  have tp0: "0 \<le> tp" unfolding tp_def using assms by (rule total_pages_nonneg)
  have cp1: "1 \<le> cp" unfolding cp_def clamp_page_def using tp0 by auto
  have pages: "Math_ceil (num_div (Fin (of_nat (count s))) (Fin (of_int k))) = Fin (of_int tp)"
    using k0 by (simp add: tp_def)
  have cur: "Math_max (Fin 1) (Math_min (Fin (of_int p)) (Fin (of_int tp))) = Fin (of_int cp)"
    unfolding cp_def clamp_page_max_min [OF tp0, symmetric] by simp
  have st0: "0 \<le> (cp - 1) * k" using cp1 assms by simp
  have en0: "0 \<le> cp * k" using cp1 assms by simp
  have start: "num_mul (num_sub (Fin (of_int cp)) (Fin 1)) (Fin (of_int k))
                = Fin (of_nat (nat ((cp - 1) * k)))"
    using st0 by simp
  have finish: "num_add (Fin (of_nat (nat ((cp - 1) * k)))) (Fin (of_int k))
                = Fin (of_nat (nat (cp * k)))"
  proof -
    have "(of_nat (nat ((cp - 1) * k)) :: rat) + of_int k = of_int ((cp - 1) * k + k)"
      using st0 by simp
    also have "(cp - 1) * k + k = cp * k" by (simp add: algebra_simps)
    also have "(of_int (cp * k) :: rat) = of_nat (nat (cp * k))" using en0 by simp
    finally show ?thesis by simp
  qed
  have "getPaginated (Fin (of_int p)) (Fin (of_int k)) s =
      \<lparr>books = at_indices (nat ((cp - 1) * k)) (nat (cp * k)) (findAll s),
       totalBooks = Fin (of_nat (count s)),
       totalPages = Fin (of_int tp),
       currentPage = Fin (of_int cp),
       hasNextPage = (cp < tp),
       hasPreviousPage = (1 < cp)\<rparr>"
    unfolding getPaginated_def Let_def pages cur start finish slice_at_indices
    by (simp add: num_gt_def)
  then show ?thesis
    unfolding Let_def tp_def [symmetric] cp_def [symmetric] by simp
qed

theorem pagination_contract_witness:
  "(1::int) \<le> 2 \<and> count five_books = 5
   \<and> totalBooks (getPaginated (Fin 10) (Fin 2) five_books) = Fin 5
   \<and> totalPages (getPaginated (Fin 10) (Fin 2) five_books) = Fin 3
   \<and> currentPage (getPaginated (Fin 10) (Fin 2) five_books) = Fin 3
   \<and> length (books (getPaginated (Fin 10) (Fin 2) five_books)) = 1
   \<and> hasNextPage (getPaginated (Fin 10) (Fin 2) five_books) = False
   \<and> hasPreviousPage (getPaginated (Fin 10) (Fin 2) five_books) = True"
proof -
  have k: "(1::int) \<le> 2" by simp
  have c: "count five_books = 5" by code_simp
  have tp: "\<lceil>(5::rat) / 2\<rceil> = 3" by code_simp
  have b: "length (at_indices 4 6 (findAll five_books)) = 1" by code_simp
  from pagination_contract [OF k, of 10 five_books] c tp b show ?thesis
    by (simp add: Let_def clamp_page_def)
qed

text \<open>
  A page size that is not positive is not refused. With five records, page 1 and a page
  size of \<open>-2\<close>, the number of pages is \<open>-2\<close>, the current page is 1 and the bounds
  of the slice are 0 and \<open>-2\<close>; \<open>slice\<close> counts a negative bound from the end, so the
  first three records are returned although no index lies from 0 up to \<open>-2\<close>.
\<close>

theorem pagination_contract_counterexample:
  "count five_books = 5
   \<and> totalPages (getPaginated (Fin 1) (Fin (- 2)) five_books) = Fin (- 2)
   \<and> currentPage (getPaginated (Fin 1) (Fin (- 2)) five_books) = Fin 1
   \<and> books (getPaginated (Fin 1) (Fin (- 2)) five_books) = take 3 (findAll five_books)
   \<and> length (books (getPaginated (Fin 1) (Fin (- 2)) five_books)) = 3
   \<and> (1 - 1) * (- 2) = (0::int) \<and> 1 * (- 2) < (0::int)"
proof -
  have "count five_books = 5" by code_simp
  moreover have "totalPages (getPaginated (Fin 1) (Fin (- 2)) five_books) = Fin (- 2)"
    by code_simp
  moreover have "currentPage (getPaginated (Fin 1) (Fin (- 2)) five_books) = Fin 1"
    by code_simp
  moreover have "books (getPaginated (Fin 1) (Fin (- 2)) five_books) = take 3 (findAll five_books)"
    by code_simp
  moreover have "length (books (getPaginated (Fin 1) (Fin (- 2)) five_books)) = 3"
    by code_simp
  ultimately show ?thesis by simp
qed

section \<open>The invariant of the store\<close>
























end
